theory Spec2Isabelle
  imports Main "HOL-Library.AList" "HOL-Library.Sublist"
begin

section \<open>Device registry (src/src/App.jsx, lines 6-39)\<close>

text \<open>
  An entry of \<open>MASTER_CONFIG\<close> is an object tagged by its \<open>type\<close> property:
  \<open>"computer"\<close> entries carry \<open>sshName\<close>, \<open>uiName\<close>, \<open>ip\<close> and \<open>allowRos\<close>,
  \<open>"device"\<close> entries carry \<open>uiName\<close> and \<open>ip\<close> only.
\<close>

datatype config_item =
    Computer string string string bool
  | Device string string

definition MASTER_CONFIG :: "config_item list" where
  "MASTER_CONFIG =
    [ Computer ''localhost'' ''localhost'' ''127.0.0.1'' True,
      Computer ''kyubic_main'' ''Main PC'' ''192.168.50.101'' True,
      Computer ''kyubic_jetson'' ''Jetson'' ''192.168.9.110'' False,
      Computer ''kyubic_rpi5'' ''RPi 5'' ''192.168.9.120'' False,
      Device ''Sensor (ESP32)'' ''192.168.9.5'',
      Device ''DVL'' ''192.168.9.10'',
      Device ''GNSS'' ''192.168.9.20'',
      Device ''Main KVM'' ''192.168.9.105'',
      Device ''Jetson KVM'' ''192.168.9.115'' ]"

text \<open>
  The objects of \<open>ALL_DEVICES\<close> have the properties \<open>name\<close> and \<open>ip\<close>; those of
  \<open>COMPUTERS\<close> have \<open>name\<close>, \<open>displayName\<close>, \<open>ip\<close> and \<open>allowRos\<close>.
\<close>

record device =
  name :: string
  ip :: string

record computer = device +
  displayName :: string
  allowRos :: bool

text \<open>
  \<open>COMPUTERS = MASTER_CONFIG.filter(item => item.type === "computer").map(...)\<close>:
  the filter keeps the \<open>Computer\<close> entries and the map rebuilds each of them; both
  steps are the one function \<open>computer_of\<close> under \<open>List.map_filter\<close>.
\<close>

fun computer_of :: "config_item \<Rightarrow> computer option" where
  "computer_of (Computer ssh ui addr ros) =
     Some \<lparr> name = ssh, ip = addr, displayName = ui, allowRos = ros \<rparr>"
| "computer_of (Device ui addr) = None"

definition COMPUTERS :: "computer list" where
  "COMPUTERS = List.map_filter computer_of MASTER_CONFIG"

fun device_of :: "config_item \<Rightarrow> device" where
  "device_of (Computer ssh ui addr ros) = \<lparr> name = ui, ip = addr \<rparr>"
| "device_of (Device ui addr) = \<lparr> name = ui, ip = addr \<rparr>"

definition ALL_DEVICES :: "device list" where
  "ALL_DEVICES = map device_of MASTER_CONFIG"

section \<open>JavaScript objects and \<open>JSON.stringify\<close>\<close>

text \<open>
  The status map is a JavaScript object whose keys are IP strings and whose values are
  booleans. Its own properties are enumerated in insertion order (none of the keys is an
  array index), and \<open>JSON.stringify\<close> writes them in that order, so the properties are an
  association list. An object also has an identity: two objects with the same properties
  are different references. The monitor never mutates an object after building it, so a
  reference is modelled as the identity \<open>oid\<close> together with the properties it points to.
\<close>

type_synonym properties = "(string \<times> bool) list"

record jsobject =
  oid :: nat
  props :: properties

text \<open>Property read \<open>obj[key]\<close> under \<open>!!\<close>: a missing key reads \<open>undefined\<close>, which is falsy.\<close>

definition truthy :: "properties \<Rightarrow> string \<Rightarrow> bool" where
  "truthy ps k = (case map_of ps k of None \<Rightarrow> False | Some b \<Rightarrow> b)"

text \<open>
  \<open>JSON.stringify\<close> on such an object (ECMAScript \<open>QuoteJSONString\<close> and
  \<open>SerializeJSONObject\<close>): every key is quoted, the double quote and the backslash are
  escaped with a backslash, the control characters below \<open>0x20\<close> are written
  \<open>\b \t \n \f \r\<close> or \<open>\u00xx\<close> with lower-case hexadecimal digits, and the
  members \<open>key:value\<close> are joined by commas between braces. Every other
  character is written as it is. A key is a sequence of 8-bit characters here; the
  addresses of the registry are ASCII.
\<close>

definition hexdigit :: "nat \<Rightarrow> char" where
  "hexdigit n = ''0123456789abcdef'' ! n"

definition escape_char :: "char \<Rightarrow> string" where
  "escape_char c =
    (if c = CHR 0x22 then [CHR 0x5C, CHR 0x22]
     else if c = CHR 0x5C then [CHR 0x5C, CHR 0x5C]
     else if c = CHR 0x08 then [CHR 0x5C, CHR ''b'']
     else if c = CHR 0x09 then [CHR 0x5C, CHR ''t'']
     else if c = CHR 0x0A then [CHR 0x5C, CHR ''n'']
     else if c = CHR 0x0C then [CHR 0x5C, CHR ''f'']
     else if c = CHR 0x0D then [CHR 0x5C, CHR ''r'']
     else if (of_char c :: nat) < 32 then
       [CHR 0x5C, CHR ''u'', CHR ''0'', CHR ''0'',
        hexdigit ((of_char c :: nat) div 16), hexdigit ((of_char c :: nat) mod 16)]
     else [c])"

definition quote_json :: "string \<Rightarrow> string" where
  "quote_json k = CHR 0x22 # concat (map escape_char k) @ [CHR 0x22]"

definition serialize_bool :: "bool \<Rightarrow> string" where
  "serialize_bool b = (if b then ''true'' else ''false'')"

definition serialize_member :: "string \<times> bool \<Rightarrow> string" where
  "serialize_member kv = quote_json (fst kv) @ CHR '':'' # serialize_bool (snd kv)"

fun join_members :: "properties \<Rightarrow> string" where
  "join_members [] = []"
| "join_members [kv] = serialize_member kv"
| "join_members (kv # kv' # rest) =
     serialize_member kv @ CHR '','' # join_members (kv' # rest)"

definition JSON_stringify :: "properties \<Rightarrow> string" where
  "JSON_stringify ps = CHR ''{'' # join_members ps @ [CHR ''}'']"

section \<open>Diagnostic results\<close>

text \<open>
  A check item is \<open>{ name, description, status, details }\<close>; the code reads
  \<open>status\<close> as a string and compares it with \<open>"PASS"\<close> and \<open>"FAIL"\<close>.
\<close>

record CheckItem =
  item_name :: string
  description :: string
  status :: string
  details :: "string option"

record DiagnosticResult =
  summary :: "CheckItem list"
  detailed :: string

section \<open>Backend calls and application state\<close>

text \<open>
  Every \<open>invoke(command, args)\<close> is recorded with its arguments. Its outcome is given by
  the backend: the promise resolves to a value (\<open>Inr\<close>) or rejects with an error
  (\<open>Inl\<close>), which the code renders into a message with a template literal.
\<close>

datatype command =
    Check_batch_connections "string list"
  | Open_ssh_terminal string string bool string
  | Exec_shutdown_command string
  | Run_system_check string

type_synonym 'a outcome = "string + 'a"

text \<open>
  The state of \<open>App\<close> and of its \<open>useDeviceMonitor\<close> hook: the \<open>useState\<close> cells, the
  number of status objects allocated so far (the next fresh identity), and the traces
  of the effects (\<open>invoke\<close>, \<open>alert\<close>, \<open>console.error\<close>).
\<close>

record app =
  deviceStatus :: jsobject
  allocated :: nat
  activeTab :: int
  shutdownTarget :: "computer option"
  checkResult :: "DiagnosticResult option"
  isChecking :: bool
  isReportOpen :: bool
  invoked :: "command list"
  alerts :: "string list"
  console :: "string list"

text \<open>The first render: \<open>useState({})\<close>, \<open>useState(0)\<close>, \<open>useState(null)\<close>, \<open>useState(false)\<close>.\<close>

definition initial :: app where
  "initial = \<lparr> deviceStatus = \<lparr> oid = 0, props = [] \<rparr>, allocated = 1, activeTab = 0,
     shutdownTarget = None, checkResult = None, isChecking = False, isReportOpen = False,
     invoked = [], alerts = [], console = [] \<rparr>"

section \<open>Status monitor (\<open>useDeviceMonitor\<close>, lines 49-81)\<close>

definition targets :: "device list \<Rightarrow> string list" where
  "targets devices = map ip (filter (\<lambda>d. ip d \<noteq> ''127.0.0.1'') devices)"

text \<open>
  \<open>{ ...result, "127.0.0.1": true }\<close>: the properties of \<open>result\<close> in their order, then
  the loopback key, which keeps its place when \<open>result\<close> already has it and is appended
  otherwise. This is \<open>AList.update\<close>.
\<close>

definition nextStatus :: "properties \<Rightarrow> properties" where
  "nextStatus result = AList.update ''127.0.0.1'' True result"

text \<open>
  \<open>setDeviceStatus(prev => JSON.stringify(prev) === JSON.stringify(nextStatus) ? prev : nextStatus)\<close>
\<close>

definition setDeviceStatus :: "(jsobject \<Rightarrow> jsobject) \<Rightarrow> app \<Rightarrow> app" where
  "setDeviceStatus f s = s\<lparr> deviceStatus := f (deviceStatus s) \<rparr>"

definition updateStatuses :: "device list \<Rightarrow> properties outcome \<Rightarrow> app \<Rightarrow> app" where
  "updateStatuses devices response s =
    (let s1 = s\<lparr> invoked := invoked s @ [Check_batch_connections (targets devices)] \<rparr>
     in case response of
          Inr result \<Rightarrow>
            (let next = \<lparr> oid = allocated s1, props = nextStatus result \<rparr>;
                 s2 = s1\<lparr> allocated := Suc (allocated s1) \<rparr>
             in setDeviceStatus
                  (\<lambda>prev. if JSON_stringify (props prev) = JSON_stringify (props next)
                           then prev else next) s2)
        | Inl e \<Rightarrow> s1\<lparr> console := console s1 @ [''Monitor failed: '' @ e] \<rparr>)"

section \<open>Values derived on each render of \<open>App\<close> (lines 216-223, 255-257, 266-278)\<close>

text \<open>\<open>COMPUTERS[activeTab]\<close> is \<open>undefined\<close> when the index is out of range.\<close>

definition currentRobot :: "app \<Rightarrow> computer option" where
  "currentRobot s =
    (if 0 \<le> activeTab s \<and> activeTab s < int (length COMPUTERS)
     then Some (COMPUTERS ! nat (activeTab s)) else None)"

definition mainRobot :: "computer option" where
  "mainRobot = List.find (\<lambda>r. name r = ''kyubic_main'') COMPUTERS"

text \<open>\<open>!!deviceStatus[mainRobot.ip]\<close>; reading \<open>.ip\<close> of \<open>undefined\<close> throws (\<open>None\<close>).\<close>

definition isMainOnline :: "app \<Rightarrow> bool option" where
  "isMainOnline s = map_option (\<lambda>r. truthy (props (deviceStatus s)) (ip r)) mainRobot"

definition isOnline :: "app \<Rightarrow> bool option" where
  "isOnline s = map_option (\<lambda>r. truthy (props (deviceStatus s)) (ip r)) (currentRobot s)"

text \<open>\<open>result?.summary.filter(i => i.status === ...) || []\<close> in \<open>CheckResultModal\<close>.\<close>

definition fails :: "DiagnosticResult option \<Rightarrow> CheckItem list" where
  "fails result =
    (case result of None \<Rightarrow> [] | Some r \<Rightarrow> filter (\<lambda>i. status i = ''FAIL'') (summary r))"

definition passes :: "DiagnosticResult option \<Rightarrow> CheckItem list" where
  "passes result =
    (case result of None \<Rightarrow> [] | Some r \<Rightarrow> filter (\<lambda>i. status i = ''PASS'') (summary r))"

text \<open>\<open>checkResult?.summary.filter(...).length || 0\<close> in \<open>App\<close>.\<close>

definition failCount :: "app \<Rightarrow> nat" where
  "failCount s =
    (case checkResult s of None \<Rightarrow> 0
     | Some r \<Rightarrow> length (filter (\<lambda>i. status i = ''FAIL'') (summary r)))"

definition passCount :: "app \<Rightarrow> nat" where
  "passCount s =
    (case checkResult s of None \<Rightarrow> 0
     | Some r \<Rightarrow> length (filter (\<lambda>i. status i = ''PASS'') (summary r)))"

text \<open>
  The button of the diagnostics widget (its icon, an emoji, is left out) and the
  condition under which the result card is shown.
\<close>

record checkBtn =
  text_label :: string
  disabled :: bool

definition checkBtnProps :: "app \<Rightarrow> checkBtn option" where
  "checkBtnProps s =
    (case isMainOnline s of None \<Rightarrow> None
     | Some online \<Rightarrow>
        Some (if isChecking s then \<lparr> text_label = ''CHECKING...'', disabled = True \<rparr>
              else if \<not> online then \<lparr> text_label = ''OFFLINE'', disabled = True \<rparr>
              else \<lparr> text_label = ''RUN CHECK'', disabled = False \<rparr>))"

definition resultDisplayed :: "app \<Rightarrow> bool" where
  "resultDisplayed s = (checkResult s \<noteq> None \<and> \<not> isChecking s)"

text \<open>
  The tab buttons: one per entry of \<open>COMPUTERS\<close> with its index, the loopback entry
  only on Linux. Each button's handler is \<open>setActiveTab(idx)\<close>.
\<close>

definition tabs :: "bool \<Rightarrow> (int \<times> computer) list" where
  "tabs isLinux =
    filter (\<lambda>(idx, comp). ip comp \<noteq> ''127.0.0.1'' \<or> isLinux)
      (zip (map int [0 ..< length COMPUTERS]) COMPUTERS)"

section \<open>Event handlers of \<open>App\<close> (lines 209-252, 285, 336)\<close>

definition setActiveTab :: "int \<Rightarrow> app \<Rightarrow> app" where
  "setActiveTab i s = s\<lparr> activeTab := i \<rparr>"

definition setShutdownTarget :: "computer option \<Rightarrow> app \<Rightarrow> app" where
  "setShutdownTarget t s = s\<lparr> shutdownTarget := t \<rparr>"

text \<open>The shutdown button of the header: \<open>onClick={() => setShutdownTarget(currentRobot)}\<close>.\<close>

definition requestShutdown :: "app \<Rightarrow> app" where
  "requestShutdown s = setShutdownTarget (currentRobot s) s"

text \<open>The cancel button of the modal: \<open>onCancel={() => setShutdownTarget(null)}\<close>.\<close>

definition cancel :: "app \<Rightarrow> app" where
  "cancel s = setShutdownTarget None s"

text \<open>
  \<open>executeShutdown\<close>, the confirm button of the modal. Nothing runs between the
  \<open>await\<close> and the continuation that depends on the state, so the handler is one step
  taking the outcome of the backend call.
\<close>

definition executeShutdown :: "unit outcome \<Rightarrow> app \<Rightarrow> app" where
  "executeShutdown response s =
    (case shutdownTarget s of
       None \<Rightarrow> s
     | Some t \<Rightarrow>
        (let s1 = s\<lparr> invoked := invoked s @ [Exec_shutdown_command (name t)] \<rparr>
         in case response of
              Inr _ \<Rightarrow> setShutdownTarget None s1
            | Inl e \<Rightarrow> s1\<lparr> alerts := alerts s1 @ [''Error: '' @ e] \<rparr>))"

text \<open>
  \<open>handleSystemCheck\<close> in two steps: what runs before the \<open>await\<close>, and what runs when
  the promise settles (\<open>try\<close> / \<open>catch\<close> / \<open>finally\<close>).
\<close>

definition handleSystemCheck_start :: "app \<Rightarrow> app" where
  "handleSystemCheck_start s =
    s\<lparr> isChecking := True, checkResult := None,
       invoked := invoked s @ [Run_system_check ''kyubic_main''] \<rparr>"

definition handleSystemCheck_settle :: "DiagnosticResult outcome \<Rightarrow> app \<Rightarrow> app" where
  "handleSystemCheck_settle response s =
    (let s1 = (case response of
                 Inr report \<Rightarrow> s\<lparr> checkResult := Some report \<rparr>
               | Inl e \<Rightarrow> s\<lparr> alerts := alerts s @ [''Error: '' @ e] \<rparr>)
     in s1\<lparr> isChecking := False \<rparr>)"

definition handleSystemCheck :: "DiagnosticResult outcome \<Rightarrow> app \<Rightarrow> app" where
  "handleSystemCheck response s = handleSystemCheck_settle response (handleSystemCheck_start s)"

text \<open>\<open>handleLaunchSSH(robot, useRos)\<close>.\<close>

definition handleLaunchSSH :: "computer \<Rightarrow> bool \<Rightarrow> unit outcome \<Rightarrow> app \<Rightarrow> app" where
  "handleLaunchSSH robot useRos response s =
    (let s1 = s\<lparr> invoked := invoked s @
                 [Open_ssh_terminal (name robot) (ip robot) useRos
                    (if useRos then ''ros2_start -- bash -i -c byobu'' else '''')] \<rparr>
     in case response of
          Inr _ \<Rightarrow> s1
        | Inl e \<Rightarrow> s1\<lparr> alerts := alerts s1 @ [''Error: '' @ e] \<rparr>)"

section \<open>Example data\<close>

text \<open>A diagnostic report with two passed checks around one failed check.\<close>

definition report0 :: DiagnosticResult where
  "report0 = \<lparr> summary =
      [ \<lparr> item_name = ''ros'', description = ''ROS nodes'', status = ''PASS'', details = None \<rparr>,
        \<lparr> item_name = ''imu'', description = ''IMU link'', status = ''FAIL'', details = Some ''x'' \<rparr>,
        \<lparr> item_name = ''disk'', description = ''Disk space'', status = ''PASS'', details = None \<rparr> ],
      detailed = ''raw log'' \<rparr>"

text \<open>Two probe results with the same entries in a different key order.\<close>

definition probeA :: properties where
  "probeA = [(''192.168.9.5'', True), (''192.168.9.10'', False)]"

definition probeB :: properties where
  "probeB = [(''192.168.9.10'', False), (''192.168.9.5'', True)]"

section \<open>The registry, evaluated\<close>

lemma COMPUTERS_eval:
  "COMPUTERS =
    [ \<lparr> name = ''localhost'', ip = ''127.0.0.1'', displayName = ''localhost'', allowRos = True \<rparr>,
      \<lparr> name = ''kyubic_main'', ip = ''192.168.50.101'', displayName = ''Main PC'', allowRos = True \<rparr>,
      \<lparr> name = ''kyubic_jetson'', ip = ''192.168.9.110'', displayName = ''Jetson'', allowRos = False \<rparr>,
      \<lparr> name = ''kyubic_rpi5'', ip = ''192.168.9.120'', displayName = ''RPi 5'', allowRos = False \<rparr> ]"
  by (simp add: COMPUTERS_def MASTER_CONFIG_def List.map_filter_def)

lemma mainRobot_eval:
  "mainRobot =
    Some \<lparr> name = ''kyubic_main'', ip = ''192.168.50.101'', displayName = ''Main PC'', allowRos = True \<rparr>"
  by (simp add: mainRobot_def COMPUTERS_eval)

lemma isMainOnline_eval:
  "isMainOnline s = Some (truthy (props (deviceStatus s)) ''192.168.50.101'')"
  by (simp add: isMainOnline_def mainRobot_eval)

lemma tabs_eval:
  "tabs isLinux = (if isLinux then [(0, COMPUTERS ! 0)] else []) @
     [(1, COMPUTERS ! 1), (2, COMPUTERS ! 2), (3, COMPUTERS ! 3)]"
  by (simp add: tabs_def COMPUTERS_eval upt_rec)

section \<open>\<open>JSON.stringify\<close> is injective on status maps\<close>

text \<open>
  The serialisation can be read back: every escape sequence determines its character
  and none begins with a double quote, so the closing quote of a key is found; the two
  boolean literals differ in their first letter; a member is followed by a comma or by
  the closing brace. Two status maps therefore have the same serialisation exactly when
  they have the same entries in the same order.
\<close>

lemma JSON_stringify_example:
  \<open>JSON_stringify [(''192.168.9.5'', True), (''192.168.9.10'', False), (''127.0.0.1'', True)]
     = ''{"192.168.9.5":true,"192.168.9.10":false,"127.0.0.1":true}''\<close>
  by (simp add: JSON_stringify_def serialize_member_def quote_json_def serialize_bool_def
        escape_char_def)

lemma JSON_stringify_empty: "JSON_stringify [] = ''{}''"
  by (simp add: JSON_stringify_def)

lemma hexdigit_inj_iff: "m < 16 \<Longrightarrow> n < 16 \<Longrightarrow> hexdigit m = hexdigit n \<longleftrightarrow> m = n"
  unfolding hexdigit_def by (subst nth_eq_iff_index_eq) simp_all

lemma control_code_eq:
  fixes c d :: char
  assumes "(of_char c :: nat) div 16 = of_char d div 16"
      and "(of_char c :: nat) mod 16 = of_char d mod 16"
  shows "c = d"
proof -
  have "(of_char c :: nat) = of_char d"
    using assms by (metis div_mult_mod_eq)
  then show ?thesis by simp
qed

lemma escape_char_not_Nil: "escape_char c \<noteq> []"
  by (simp add: escape_char_def)

lemma escape_char_hd: "hd (escape_char c) \<noteq> CHR 0x22"
  by (simp add: escape_char_def)

lemma escape_char_prefix_code:
  assumes "escape_char c @ x = escape_char d @ y"
  shows "c = d \<and> x = y"
proof -
  have small: "n div 16 < 16" "n mod 16 < 16" if "n < 32" for n :: nat
    using that by simp_all
  show ?thesis
    using assms
    by (auto simp: escape_char_def hexdigit_inj_iff small split: if_splits
             intro: control_code_eq)
qed

lemma quote_not_escape_head:
  assumes "CHR 0x22 # x = escape_char d @ y"
  shows False
proof -
  from assms have "hd (escape_char d) = CHR 0x22"
    using escape_char_not_Nil [of d] by (cases "escape_char d") auto
  then show False using escape_char_hd by blast
qed

lemma escaped_body_inj:
  "concat (map escape_char k) @ CHR 0x22 # x = concat (map escape_char k') @ CHR 0x22 # y
    \<Longrightarrow> k = k' \<and> x = y"
proof (induction k arbitrary: k')
  case Nil
  show ?case
  proof (cases k')
    case Nil
    with Nil.prems show ?thesis by simp
  next
    case (Cons d ds)
    with Nil.prems
    have "CHR 0x22 # x = escape_char d @ (concat (map escape_char ds) @ CHR 0x22 # y)"
      by simp
    then show ?thesis using quote_not_escape_head by blast
  qed
next
  case (Cons c cs)
  show ?case
  proof (cases k')
    case Nil
    with Cons.prems
    have "CHR 0x22 # y = escape_char c @ (concat (map escape_char cs) @ CHR 0x22 # x)"
      by simp
    then show ?thesis using quote_not_escape_head by blast
  next
    case (Cons d ds)
    with Cons.prems have
      "escape_char c @ (concat (map escape_char cs) @ CHR 0x22 # x) =
       escape_char d @ (concat (map escape_char ds) @ CHR 0x22 # y)"
      by simp
    then have "c = d"
      and "concat (map escape_char cs) @ CHR 0x22 # x = concat (map escape_char ds) @ CHR 0x22 # y"
      using escape_char_prefix_code by blast+
    with Cons.IH [of ds] Cons show ?thesis by simp
  qed
qed

lemma quote_json_inj: "quote_json k @ x = quote_json k' @ y \<Longrightarrow> k = k' \<and> x = y"
  using escaped_body_inj [of k x k' y] by (simp add: quote_json_def)

lemma serialize_bool_inj: "serialize_bool a @ x = serialize_bool b @ y \<Longrightarrow> a = b \<and> x = y"
  by (auto simp: serialize_bool_def split: if_splits)

lemma serialize_member_inj:
  assumes "serialize_member kv @ x = serialize_member kv' @ y"
  shows "kv = kv' \<and> x = y"
proof -
  from assms have
    "quote_json (fst kv) @ (CHR '':'' # serialize_bool (snd kv) @ x) =
     quote_json (fst kv') @ (CHR '':'' # serialize_bool (snd kv') @ y)"
    by (simp add: serialize_member_def)
  then have "fst kv = fst kv'" and "serialize_bool (snd kv) @ x = serialize_bool (snd kv') @ y"
    using quote_json_inj by blast+
  then show ?thesis
    using serialize_bool_inj [of "snd kv" x "snd kv'" y] by (simp add: prod_eq_iff)
qed

lemma serialize_member_hd: "\<exists>r. serialize_member kv = CHR 0x22 # r"
  by (simp add: serialize_member_def quote_json_def)

lemma join_members_Cons:
  "join_members (kv # rest) =
     serialize_member kv @ (if rest = [] then [] else CHR '','' # join_members rest)"
  by (cases rest) simp_all

lemma join_members_inj:
  "join_members ps @ CHR ''}'' # x = join_members qs @ CHR ''}'' # y \<Longrightarrow> ps = qs \<and> x = y"
proof (induction ps arbitrary: qs)
  case Nil
  show ?case
  proof (cases qs)
    case Nil
    with Nil.prems show ?thesis by simp
  next
    case (Cons q qs')
    obtain r where "serialize_member q = CHR 0x22 # r" using serialize_member_hd by blast
    with Nil.prems Cons show ?thesis by (simp add: join_members_Cons)
  qed
next
  case (Cons p ps')
  show ?case
  proof (cases qs)
    case Nil
    obtain r where "serialize_member p = CHR 0x22 # r" using serialize_member_hd by blast
    with Cons.prems Nil show ?thesis by (simp add: join_members_Cons)
  next
    case (Cons q qs')
    let ?after = "\<lambda>rest z. (if rest = [] then [] else CHR '','' # join_members rest) @ CHR ''}'' # z"
    from Cons.prems Cons have "serialize_member p @ ?after ps' x = serialize_member q @ ?after qs' y"
      by (simp add: join_members_Cons)
    then have pq: "p = q" and rest: "?after ps' x = ?after qs' y"
      using serialize_member_inj by blast+
    have "ps' = qs' \<and> x = y"
    proof (cases "ps' = []")
      case True
      with rest show ?thesis by (cases "qs' = []") auto
    next
      case False
      with rest have "qs' \<noteq> []" by (cases "qs' = []") auto
      with rest False have "join_members ps' @ CHR ''}'' # x = join_members qs' @ CHR ''}'' # y"
        by simp
      then show ?thesis using Cons.IH by blast
    qed
    with pq Cons show ?thesis by simp
  qed
qed

lemma JSON_stringify_inj: "JSON_stringify ps = JSON_stringify qs \<longleftrightarrow> ps = qs"
  using join_members_inj [of ps "[]" qs "[]"] by (auto simp: JSON_stringify_def)

section \<open>Status monitor\<close>

text \<open>
  What a successful poll stores: the previous object when its entries are those of the
  new map in the same order, and the freshly built object otherwise.
\<close>

lemma updateStatuses_success:
  "deviceStatus (updateStatuses devices (Inr result) s) =
     (if props (deviceStatus s) = nextStatus result then deviceStatus s
      else \<lparr> oid = allocated s, props = nextStatus result \<rparr>)"
  by (simp add: updateStatuses_def setDeviceStatus_def Let_def JSON_stringify_inj)

lemma updateStatuses_success_props:
  "props (deviceStatus (updateStatuses devices (Inr result) s)) = nextStatus result"
  by (simp add: updateStatuses_success)

lemma updateStatuses_success_allocated:
  "allocated (updateStatuses devices (Inr result) s) = Suc (allocated s)"
  by (simp add: updateStatuses_def setDeviceStatus_def Let_def)

lemma nextStatus_loopback: "map_of (nextStatus result) ''127.0.0.1'' = Some True"
  by (simp add: nextStatus_def update_conv')

text \<open>
  Claim C2. When the batched reachability query itself fails, the stored status map
  after the tick is the very object stored before the tick (same identity, same
  entries); no object is built, and the failure is only written to the console.
\<close>

theorem updateStatuses_failure_keeps_status:
  "deviceStatus (updateStatuses devices (Inl e) s) = deviceStatus s
   \<and> allocated (updateStatuses devices (Inl e) s) = allocated s
   \<and> alerts (updateStatuses devices (Inl e) s) = alerts s
   \<and> console (updateStatuses devices (Inl e) s) = console s @ [''Monitor failed: '' @ e]"
  by (simp add: updateStatuses_def)

text \<open>
  Claim C3, as stated, fails. The probe results \<open>probeA\<close> and \<open>probeB\<close> give status
  maps that are equal as mappings from IP to boolean, but their keys are in a different
  order, so the two serialisations differ and the second poll stores a new object.
\<close>

theorem updateStatuses_reordered_keys_new_reference:
  "map_of (nextStatus probeB) = map_of (nextStatus probeA)
   \<and> oid (deviceStatus (updateStatuses ALL_DEVICES (Inr probeB)
             (updateStatuses ALL_DEVICES (Inr probeA) initial)))
     \<noteq> oid (deviceStatus (updateStatuses ALL_DEVICES (Inr probeA) initial))"
  by (auto simp add: updateStatuses_success updateStatuses_success_allocated
        nextStatus_def initial_def probeA_def probeB_def fun_eq_iff)

text \<open>
  Claim C3, amended. For two consecutive successful polls whose computed status maps
  have the same entries in the same key order (so that their JSON serialisations are
  the same string), the stored status map after the second poll is the very object
  stored after the first.
\<close>

theorem updateStatuses_same_entries_keeps_reference:
  assumes "nextStatus result2 = nextStatus result1"
  shows "deviceStatus (updateStatuses devices (Inr result2) (updateStatuses devices (Inr result1) s))
       = deviceStatus (updateStatuses devices (Inr result1) s)"
proof -
  let ?s1 = "updateStatuses devices (Inr result1) s"
  have "props (deviceStatus ?s1) = nextStatus result2"
    using assms by (simp add: updateStatuses_success_props)
  then show ?thesis
    by (simp add: updateStatuses_success [of devices result2])
qed

theorem updateStatuses_same_entries_keeps_reference_witness:
  "nextStatus probeA = nextStatus probeA
   \<and> deviceStatus (updateStatuses ALL_DEVICES (Inr probeA)
        (updateStatuses ALL_DEVICES (Inr probeA) initial))
     = \<lparr> oid = 1, props = [(''192.168.9.5'', True), (''192.168.9.10'', False), (''127.0.0.1'', True)] \<rparr>"
proof -
  have first: "deviceStatus (updateStatuses ALL_DEVICES (Inr probeA) initial)
      = \<lparr> oid = 1, props = [(''192.168.9.5'', True), (''192.168.9.10'', False), (''127.0.0.1'', True)] \<rparr>"
    by (simp add: updateStatuses_success nextStatus_def initial_def probeA_def)
  show ?thesis
    using first updateStatuses_same_entries_keeps_reference [OF refl, of ALL_DEVICES probeA initial]
    by simp
qed

text \<open>
  Claim C4. The loopback address is never among the targets of the batched query, and
  after every successful poll, whatever the probe result and whatever was stored before,
  the stored status map has the entry \<open>true\<close> for \<open>127.0.0.1\<close>.
\<close>

theorem updateStatuses_loopback_true:
  "''127.0.0.1'' \<notin> set (targets devices)
   \<and> map_of (props (deviceStatus (updateStatuses devices (Inr result) s))) ''127.0.0.1'' = Some True
   \<and> truthy (props (deviceStatus (updateStatuses devices (Inr result) s))) ''127.0.0.1''"
  by (auto simp add: targets_def updateStatuses_success_props nextStatus_loopback truthy_def)

section \<open>Confirmation gate\<close>

text \<open>
  Claim C7. Arming the gate with target \<open>A\<close> and then with target \<open>B\<close> leaves exactly
  \<open>B\<close> pending: the single cell \<open>shutdownTarget\<close> is overwritten. Through the view,
  pressing the shutdown button on tab \<open>i\<close> and then on tab \<open>j\<close> leaves the computer of
  tab \<open>j\<close> pending.
\<close>

theorem requestShutdown_last_request_wins:
  "shutdownTarget (setShutdownTarget (Some B) (setShutdownTarget (Some A) s)) = Some B
   \<and> shutdownTarget (requestShutdown (setActiveTab j (requestShutdown (setActiveTab i s))))
       = currentRobot (setActiveTab j s)"
  by (simp add: setShutdownTarget_def requestShutdown_def setActiveTab_def currentRobot_def)

text \<open>
  Claim C1, as stated, fails. With the gate armed from the first render, a shutdown call
  that is rejected leaves the gate armed: \<open>setShutdownTarget(null)\<close> is the statement
  after the \<open>await\<close> inside \<open>try\<close> and is skipped when the call throws.
\<close>

theorem executeShutdown_failure_stays_armed:
  "shutdownTarget (executeShutdown (Inl ''ssh: connection refused'') (requestShutdown initial))
     \<noteq> None"
  by (simp add: executeShutdown_def requestShutdown_def setShutdownTarget_def currentRobot_def
        initial_def COMPUTERS_eval)

text \<open>
  Claim C1, amended. For every armed target, \<open>confirm()\<close> returns the gate to Idle when
  the shutdown dispatch succeeds; when the dispatch fails, the error is surfaced in an
  alert and the gate stays armed with the same target.
\<close>

theorem executeShutdown_idle_on_success_only:
  assumes "shutdownTarget s = Some t"
  shows "shutdownTarget (executeShutdown (Inr ()) s) = None
       \<and> shutdownTarget (executeShutdown (Inl e) s) = Some t
       \<and> alerts (executeShutdown (Inl e) s) = alerts s @ [''Error: '' @ e]"
  using assms by (simp add: executeShutdown_def setShutdownTarget_def)

theorem executeShutdown_idle_on_success_only_witness:
  "shutdownTarget (requestShutdown initial) = Some (COMPUTERS ! 0)
   \<and> shutdownTarget (executeShutdown (Inr ()) (requestShutdown initial)) = None
   \<and> shutdownTarget (executeShutdown (Inl ''refused'') (requestShutdown initial))
       = Some (COMPUTERS ! 0)
   \<and> alerts (executeShutdown (Inl ''refused'') (requestShutdown initial)) = [''Error: refused'']"
proof -
  have armed: "shutdownTarget (requestShutdown initial) = Some (COMPUTERS ! 0)"
    by (simp add: requestShutdown_def setShutdownTarget_def currentRobot_def initial_def
          COMPUTERS_eval)
  have quiet: "alerts (requestShutdown initial) = []"
    by (simp add: requestShutdown_def setShutdownTarget_def initial_def)
  show ?thesis
    using armed quiet executeShutdown_idle_on_success_only [OF armed, of "''refused''"] by simp
qed

text \<open>
  Claim C8. When the shutdown button is pressed while \<open>C\<close> is the active target, \<open>C\<close>
  stays pending whatever tab \<open>d\<close> is selected afterwards, and confirming issues exactly
  one backend call, \<open>exec_shutdown_command\<close> with the host name of \<open>C\<close>, whether
  the call then succeeds or fails.
\<close>

theorem executeShutdown_dispatches_armed_target:
  assumes "currentRobot s = Some C"
  shows "shutdownTarget (setActiveTab d (requestShutdown s)) = Some C
       \<and> invoked (executeShutdown response (setActiveTab d (requestShutdown s)))
           = invoked s @ [Exec_shutdown_command (name C)]"
  using assms
  by (cases response)
     (simp_all add: executeShutdown_def requestShutdown_def setShutdownTarget_def setActiveTab_def)

theorem executeShutdown_dispatches_armed_target_witness:
  "currentRobot (setActiveTab 1 initial) = Some (COMPUTERS ! 1)
   \<and> currentRobot (setActiveTab 2 (requestShutdown (setActiveTab 1 initial))) = Some (COMPUTERS ! 2)
   \<and> invoked (executeShutdown (Inr ()) (setActiveTab 2 (requestShutdown (setActiveTab 1 initial))))
       = [Exec_shutdown_command ''kyubic_main'']"
proof -
  have h: "currentRobot (setActiveTab 1 initial) = Some (COMPUTERS ! 1)"
    by (simp add: currentRobot_def setActiveTab_def COMPUTERS_eval)
  have d: "currentRobot (setActiveTab 2 (requestShutdown (setActiveTab 1 initial)))
      = Some (COMPUTERS ! 2)"
    by (simp add: currentRobot_def setActiveTab_def requestShutdown_def setShutdownTarget_def
          COMPUTERS_eval)
  have n: "name (COMPUTERS ! 1) = ''kyubic_main''" by (simp add: COMPUTERS_eval)
  have i: "invoked (setActiveTab 1 initial) = []" by (simp add: setActiveTab_def initial_def)
  show ?thesis
    using h d n i executeShutdown_dispatches_armed_target [OF h, of 2 "Inr ()"] by simp
qed

section \<open>Target selector\<close>

text \<open>
  Claim C9, as stated, fails. \<open>setActiveTab\<close> is the bare state setter: asked for
  index 7 of a list of four computers, it stores 7, and no current computer is left.
\<close>

theorem setActiveTab_out_of_range_is_stored:
  "\<not> (7 < int (length COMPUTERS))
   \<and> activeTab initial = 0
   \<and> activeTab (setActiveTab 7 initial) = 7
   \<and> currentRobot (setActiveTab 7 initial) = None"
  by (simp add: setActiveTab_def initial_def currentRobot_def COMPUTERS_eval)

text \<open>
  Claim C9, amended. The setter stores any index it is given, without validation. The
  requests the view can issue come from the tab buttons, which are built by enumerating
  the list of controllable targets: every index \<open>idx\<close> of a rendered tab satisfies
  \<open>0 \<le> idx < len(ControllableTargets)\<close>, and selecting it makes the computer of
  that tab the current one.
\<close>

theorem setActiveTab_requests_in_range:
  assumes "(idx, robot) \<in> set (tabs isLinux)"
  shows "0 \<le> idx \<and> idx < int (length COMPUTERS)
       \<and> currentRobot (setActiveTab idx s) = Some robot
       \<and> activeTab (setActiveTab i s) = i"
proof -
  from assms have "(idx, robot) \<in> set (zip (map int [0 ..< length COMPUTERS]) COMPUTERS)"
    by (simp add: tabs_def)
  then obtain n where "n < length COMPUTERS" "idx = int n" "robot = COMPUTERS ! n"
    by (auto simp: in_set_zip)
  then show ?thesis by (simp add: currentRobot_def setActiveTab_def)
qed

theorem setActiveTab_requests_in_range_witness:
  "(1, COMPUTERS ! 1) \<in> set (tabs False)
   \<and> currentRobot (setActiveTab 1 initial) = Some (COMPUTERS ! 1)
   \<and> activeTab (setActiveTab 1 initial) = 1"
proof -
  have h: "(1, COMPUTERS ! 1) \<in> set (tabs False)" by (simp add: tabs_eval)
  show ?thesis using h setActiveTab_requests_in_range [OF h, of initial 1] by simp
qed

section \<open>Diagnostics\<close>

text \<open>
  Claim C5, as stated, fails. A first run stores \<open>report0\<close>; a second run that fails
  leaves no stored result, because \<open>setCheckResult(null)\<close> runs before the call.
\<close>

theorem handleSystemCheck_failure_discards_previous_result:
  "checkResult (handleSystemCheck (Inr report0) initial) = Some report0
   \<and> checkResult (handleSystemCheck (Inl ''timeout'')
        (handleSystemCheck (Inr report0) initial)) = None"
  by (simp add: handleSystemCheck_def handleSystemCheck_start_def handleSystemCheck_settle_def)

text \<open>
  Claim C5, amended. For every diagnostic run, the model is in a running state for the
  duration of the call: the stored result is cleared, no result is displayed and the
  trigger is disabled. On success the returned result is stored; on failure an error is
  surfaced and the stored result stays cleared (the result of an earlier run is not
  restored). In both cases the running flag is reset.
\<close>

theorem handleSystemCheck_running_then_settled:
  "isChecking (handleSystemCheck_start s)
   \<and> checkResult (handleSystemCheck_start s) = None
   \<and> \<not> resultDisplayed (handleSystemCheck_start s)
   \<and> map_option disabled (checkBtnProps (handleSystemCheck_start s)) = Some True
   \<and> checkResult (handleSystemCheck (Inr report) s) = Some report
   \<and> \<not> isChecking (handleSystemCheck (Inr report) s)
   \<and> checkResult (handleSystemCheck (Inl e) s) = None
   \<and> alerts (handleSystemCheck (Inl e) s) = alerts s @ [''Error: '' @ e]
   \<and> \<not> isChecking (handleSystemCheck (Inl e) s)"
  by (simp add: handleSystemCheck_def handleSystemCheck_start_def handleSystemCheck_settle_def
        resultDisplayed_def checkBtnProps_def isMainOnline_eval)

text \<open>
  Claim C10. Every diagnostic run calls \<open>run_system_check\<close> with the host name
  \<open>kyubic_main\<close>, whatever tab is active; the button that triggers it is disabled
  exactly when a run is in flight or the status map does not report the address of
  \<open>kyubic_main\<close> online, and switching the tab changes neither.
\<close>

theorem system_check_fixed_on_kyubic_main:
  "invoked (handleSystemCheck_start (setActiveTab i s))
     = invoked s @ [Run_system_check ''kyubic_main'']
   \<and> invoked (handleSystemCheck response (setActiveTab i s))
     = invoked s @ [Run_system_check ''kyubic_main'']
   \<and> map_option name mainRobot = Some ''kyubic_main''
   \<and> isMainOnline (setActiveTab i s) = isMainOnline s
   \<and> checkBtnProps (setActiveTab i s) = checkBtnProps s
   \<and> map_option disabled (checkBtnProps s)
       = Some (isChecking s \<or> \<not> truthy (props (deviceStatus s)) ''192.168.50.101'')"
  by (cases response)
     (simp_all add: handleSystemCheck_def handleSystemCheck_start_def handleSystemCheck_settle_def
        setActiveTab_def checkBtnProps_def isMainOnline_def mainRobot_eval)

theorem system_check_fixed_on_kyubic_main_witness:
  "map_option disabled (checkBtnProps (setActiveTab 3 initial)) = Some True
   \<and> map_option disabled (checkBtnProps
        (setActiveTab 3 (updateStatuses ALL_DEVICES (Inr [(''192.168.50.101'', True)]) initial)))
       = Some False
   \<and> invoked (handleSystemCheck_start (setActiveTab 3 initial)) = [Run_system_check ''kyubic_main'']"
proof -
  let ?s = "updateStatuses ALL_DEVICES (Inr [(''192.168.50.101'', True)]) initial"
  have off: "\<not> truthy (props (deviceStatus initial)) ''192.168.50.101''"
    by (simp add: initial_def truthy_def)
  have on: "truthy (props (deviceStatus ?s)) ''192.168.50.101''"
    by (simp add: updateStatuses_success_props nextStatus_def truthy_def)
  have idle: "\<not> isChecking initial" "\<not> isChecking ?s" "invoked initial = []"
    by (simp_all add: initial_def updateStatuses_def setDeviceStatus_def Let_def)
  show ?thesis
    using off on idle
      system_check_fixed_on_kyubic_main [of 3 initial "Inr report0"]
      system_check_fixed_on_kyubic_main [of 3 ?s "Inr report0"]
    by simp
qed

lemma filter_PASS_FAIL_length:
  assumes "\<forall>i \<in> set xs. status i = ''PASS'' \<or> status i = ''FAIL''"
  shows "length (filter (\<lambda>i. status i = ''PASS'') xs)
       + length (filter (\<lambda>i. status i = ''FAIL'') xs) = length xs"
  using assms by (induction xs) auto

lemma counts_are_lengths:
  "failCount s = length (fails (checkResult s)) \<and> passCount s = length (passes (checkResult s))"
  by (simp add: failCount_def passCount_def fails_def passes_def split: option.split)

text \<open>
  Claim C6. For every diagnostic result whose items all have status \<open>PASS\<close> or
  \<open>FAIL\<close>, the passed and the failed items together are as many as the items of the
  summary, and each of the two lists is a subsequence of the summary: its items appear
  in the order they have there. The two counts shown by the widget add up likewise.
\<close>

theorem diagnostic_partition:
  assumes "\<forall>i \<in> set (summary r). status i = ''PASS'' \<or> status i = ''FAIL''"
  shows "length (passes (Some r)) + length (fails (Some r)) = length (summary r)
       \<and> subseq (passes (Some r)) (summary r)
       \<and> subseq (fails (Some r)) (summary r)
       \<and> passCount (s\<lparr> checkResult := Some r \<rparr>) + failCount (s\<lparr> checkResult := Some r \<rparr>)
           = length (summary r)"
  using filter_PASS_FAIL_length [OF assms]
  by (simp add: passes_def fails_def passCount_def failCount_def)

theorem diagnostic_partition_witness:
  "map status (summary report0) = [''PASS'', ''FAIL'', ''PASS'']
   \<and> length (passes (Some report0)) + length (fails (Some report0)) = 3
   \<and> subseq (passes (Some report0)) (summary report0)
   \<and> subseq (fails (Some report0)) (summary report0)
   \<and> passes (Some report0) = [summary report0 ! 0, summary report0 ! 2]
   \<and> fails (Some report0) = [summary report0 ! 1]"
proof -
  have h: "\<forall>i \<in> set (summary report0). status i = ''PASS'' \<or> status i = ''FAIL''"
    by (simp add: report0_def)
  have "length (summary report0) = 3" by (simp add: report0_def)
  moreover have "passes (Some report0) = [summary report0 ! 0, summary report0 ! 2]"
    by (simp add: passes_def report0_def)
  moreover have "fails (Some report0) = [summary report0 ! 1]"
    by (simp add: fails_def report0_def)
  moreover have "map status (summary report0) = [''PASS'', ''FAIL'', ''PASS'']"
    by (simp add: report0_def)
  ultimately show ?thesis using diagnostic_partition [OF h] by simp
qed

end
